theory Spec2Isabelle
  imports
    Complex_Main
    "HOL-Library.Log_Nat"
    "HOL-Library.Multiset"
    "HOL-Library.Char_ord"
    "HOL-Library.List_Lexorder"
    "HOL-Library.Product_Lexorder"
begin

section \<open>Binary floating point\<close>

text \<open>
  A float64 that is not NaN: an infinity or a finite value, given by the rational it
  denotes. NaN is \<open>None\<close> of \<open>f64 option\<close>; it is also pandas' marker of a missing
  value. The sign of zero is not modelled. An int64 value of a column is carried as the
  rational it denotes, too, and rounded where the program converts it to float64.
\<close>

datatype f64 = NInf | Fin rat | PInf

fun f64_le :: "f64 \<Rightarrow> f64 \<Rightarrow> bool" where
  "f64_le NInf b = True"
| "f64_le (Fin a) NInf = False"
| "f64_le (Fin a) (Fin b) = (a \<le> b)"
| "f64_le (Fin a) PInf = True"
| "f64_le PInf PInf = True"
| "f64_le PInf b = False"

instantiation f64 :: linorder
begin

definition less_eq_f64 :: "f64 \<Rightarrow> f64 \<Rightarrow> bool" where
  "less_eq_f64 a b = f64_le a b"

definition less_f64 :: "f64 \<Rightarrow> f64 \<Rightarrow> bool" where
  "less_f64 a b = (f64_le a b \<and> \<not> f64_le b a)"

instance
proof
  fix x y z :: f64
  show "(x < y) = (x \<le> y \<and> \<not> y \<le> x)"
    by (simp add: less_f64_def less_eq_f64_def)
  show "x \<le> x"
    by (cases x) (simp_all add: less_eq_f64_def)
  show "x \<le> y \<Longrightarrow> y \<le> z \<Longrightarrow> x \<le> z"
    by (cases x; cases y; cases z) (simp_all add: less_eq_f64_def)
  show "x \<le> y \<Longrightarrow> y \<le> x \<Longrightarrow> x = y"
    by (cases x; cases y) (simp_all add: less_eq_f64_def)
  show "x \<le> y \<or> y \<le> x"
    by (cases x; cases y) (auto simp: less_eq_f64_def)
qed

end

definition round_half_even :: "rat \<Rightarrow> int" where
  "round_half_even q =
     (let f = \<lfloor>q\<rfloor>; r = q - of_int f in
      if r < 1 / 2 then f else if 1 / 2 < r then f + 1 else if even f then f else f + 1)"

text \<open>\<open>2\<close> to an integer power, and the exponent \<open>e\<close> with \<open>2\<^sup>e \<le> q < 2\<^sup>e\<^sup>+\<^sup>1\<close> of a positive \<open>q\<close>.\<close>

definition pow2 :: "int \<Rightarrow> rat" where
  "pow2 k = (if 0 \<le> k then 2 ^ nat k else 1 / 2 ^ nat (- k))"

definition floor_log2 :: "rat \<Rightarrow> int" where
  "floor_log2 q =
     (case quotient_of q of (a, b) \<Rightarrow>
        let k = bitlen a - bitlen b in if pow2 k \<le> q then k else k - 1)"

text \<open>
  Rounding of a real number to float64, to nearest and ties to even. With \<open>e\<close> the
  exponent of \<open>\<bar>q\<bar>\<close>, the result is a multiple \<open>m\<close> of \<open>2\<^sup>p\<close>, where \<open>p = e - 52\<close> (53
  significant bits) and \<open>p = -1074\<close> in the range of gradual underflow. The result is
  an infinity when \<open>m \<sqdot> 2\<^sup>p\<close> reaches \<open>2\<^sup>1\<^sup>0\<^sup>2\<^sup>4\<close>: when \<open>e \<ge> 1024\<close>, or \<open>e = 1023\<close> and \<open>m\<close>
  has rounded up to \<open>2\<^sup>5\<^sup>3\<close>.
\<close>

definition rnd :: "rat \<Rightarrow> f64" where
  "rnd q =
     (if q = 0 then Fin 0
      else let e = floor_log2 \<bar>q\<bar>;
               p = max (e - 52) (- 1074);
               m = round_half_even (\<bar>q\<bar> / pow2 p)
           in if 1024 \<le> e \<or> (e = 1023 \<and> 2 ^ 53 \<le> m) then (if 0 < q then PInf else NInf)
              else Fin ((if 0 < q then 1 else - 1) * (of_int m * pow2 p)))"

text \<open>Conversion to float64 of a value of a numeric column.\<close>

definition cast :: "f64 \<Rightarrow> f64" where
  "cast v = (case v of Fin q \<Rightarrow> rnd q | _ \<Rightarrow> v)"

fun fneg :: "f64 \<Rightarrow> f64" where
  "fneg NInf = PInf"
| "fneg (Fin q) = Fin (- q)"
| "fneg PInf = NInf"

text \<open>Addition, subtraction and division by a count, on float64 with NaN.\<close>

fun fadd :: "f64 option \<Rightarrow> f64 option \<Rightarrow> f64 option" where
  "fadd (Some (Fin a)) (Some (Fin b)) = Some (rnd (a + b))"
| "fadd (Some PInf) (Some NInf) = None"
| "fadd (Some NInf) (Some PInf) = None"
| "fadd (Some PInf) (Some b) = Some PInf"
| "fadd (Some NInf) (Some b) = Some NInf"
| "fadd (Some (Fin a)) (Some b) = Some b"
| "fadd a b = None"

definition fsub :: "f64 option \<Rightarrow> f64 option \<Rightarrow> f64 option" where
  "fsub a b = fadd a (map_option fneg b)"

definition fdiv_count :: "f64 option \<Rightarrow> nat \<Rightarrow> f64 option" where
  "fdiv_count a n =
     (case a of Some (Fin q) \<Rightarrow> Some (rnd (q / of_nat n)) | _ \<Rightarrow> a)"

section \<open>Data model\<close>

text \<open>
  A data frame as \<^verbatim>\<open>pd.read_csv\<close> hands it to both programs: the header and, for
  every row, the cell under each column name. A cell is a missing value (NaN), a text
  (a column of dtype object), an integer (dtype int64) or a float (dtype float64).
  Strings are sequences of characters compared by character code, as Python compares
  \<^verbatim>\<open>str\<close> values.
\<close>

datatype cell = NA | Text string | IntV int | FloatV f64

record dataframe =
  columns :: "string list"
  rows :: "(string \<Rightarrow> cell) list"

text \<open>
  A timestamp is year, month, day, hour, minute, second and nanosecond; the
  lexicographic order of the tuple is the order in time.
\<close>

type_synonym ts = "nat \<times> nat \<times> nat \<times> nat \<times> nat \<times> nat \<times> nat"

text \<open>A row of the frame that \<^verbatim>\<open>load_scan\<close> returns.\<close>

record scan_row =
  timestamp :: "ts option"
  ssid :: string
  bssid :: string
  channel :: string
  rssi :: "f64 option"

text \<open>A row of the frame that \<^verbatim>\<open>summarize\<close> returns (one per BSSID).\<close>

record device_summary =
  s_bssid :: string
  frames :: nat
  first_seen :: "ts option"
  last_seen :: "ts option"
  min_rssi :: "f64 option"
  avg_rssi :: "f64 option"
  max_rssi :: "f64 option"
  ssids :: string
  channels :: string

datatype error =
  SystemExit string
  | KeyError "string list"
  | AttributeError
  | TypeError
  | ReError

section \<open>Python and pandas primitives\<close>

fun dec_nat :: "nat \<Rightarrow> string" where
  "dec_nat n =
     (if n < 10 then [''0123456789'' ! n]
      else dec_nat (n div 10) @ [''0123456789'' ! (n mod 10)])"

declare dec_nat.simps [simp del]

text \<open>\<^verbatim>\<open>str(i)\<close> of an integer.\<close>

definition str_int :: "int \<Rightarrow> string" where
  "str_int i = (if i < 0 then CHR ''-'' # dec_nat (nat (- i)) else dec_nat (nat i))"

text \<open>\<^verbatim>\<open>sep.join(xs)\<close>.\<close>

fun join :: "string \<Rightarrow> string list \<Rightarrow> string" where
  "join sep [] = []"
| "join sep [x] = x"
| "join sep (x # y # ys) = x @ sep @ join sep (y # ys)"

text \<open>
  \<^verbatim>\<open>repr\<close> of a list of strings, as the f-string \<^verbatim>\<open>f"{missing}"\<close> prints it. The
  elements are column names of \<^verbatim>\<open>expected\<close>, which need no escaping.
\<close>

definition repr_str :: "string \<Rightarrow> string" where
  "repr_str s = CHR 0x27 # s @ [CHR 0x27]"

definition repr_list :: "string list \<Rightarrow> string" where
  "repr_list xs = ''['' @ join '', '' (map repr_str xs) @ '']''"

text \<open>\<^verbatim>\<open>Series.fillna("")\<close> on one cell.\<close>

definition fillna :: "cell \<Rightarrow> cell" where
  "fillna c = (case c of NA \<Rightarrow> Text [] | _ \<Rightarrow> c)"

text \<open>
  \<^verbatim>\<open>Series.astype(str)\<close> on one cell: \<^verbatim>\<open>str\<close> of the value, and \<^verbatim>\<open>'nan'\<close> for a
  missing one. \<open>float_repr\<close> is Python's \<^verbatim>\<open>repr\<close> of a float, a parameter.
\<close>

definition astype_str :: "(f64 \<Rightarrow> string) \<Rightarrow> cell \<Rightarrow> string" where
  "astype_str float_repr c =
     (case c of NA \<Rightarrow> ''nan'' | Text s \<Rightarrow> s | IntV i \<Rightarrow> str_int i | FloatV q \<Rightarrow> float_repr q)"

text \<open>
  \<^verbatim>\<open>pd.to_numeric(errors="coerce")\<close> on one cell. \<open>parse_number\<close> is the library's
  parser of a text, a parameter: \<open>None\<close> (NaN) where the text is no number.
\<close>

definition to_numeric :: "(string \<Rightarrow> f64 option) \<Rightarrow> cell \<Rightarrow> f64 option" where
  "to_numeric parse_number c =
     (case c of NA \<Rightarrow> None | Text s \<Rightarrow> parse_number s
      | IntV i \<Rightarrow> Some (Fin (of_int i)) | FloatV q \<Rightarrow> Some q)"

text \<open>The values of a column that are not missing (\<^verbatim>\<open>skipna\<close>).\<close>

fun present :: "'a option list \<Rightarrow> 'a list" where
  "present [] = []"
| "present (None # xs) = present xs"
| "present (Some x # xs) = x # present xs"

definition agg_min :: "('a::linorder) option list \<Rightarrow> 'a option" where
  "agg_min xs = (case present xs of [] \<Rightarrow> None | y # ys \<Rightarrow> Some (fold min ys y))"

definition agg_max :: "('a::linorder) option list \<Rightarrow> 'a option" where
  "agg_max xs = (case present xs of [] \<Rightarrow> None | y # ys \<Rightarrow> Some (fold max ys y))"

text \<open>
  The group mean of pandas: the values that are not missing are converted to float64
  and added up in the order of the rows by compensated (Kahan) summation, a
  compensation that is NaN being reset to zero; the sum is divided by their number.
\<close>

definition kahan_step :: "f64 \<Rightarrow> f64 option \<times> f64 option \<Rightarrow> f64 option \<times> f64 option" where
  "kahan_step v st =
     (case st of (sumx, compensation) \<Rightarrow>
        let y = fsub (Some (cast v)) compensation;
            t = fadd sumx y;
            c = fsub (fsub t sumx) y
        in (t, if c = None then Some (Fin 0) else c))"

definition agg_mean :: "f64 option list \<Rightarrow> f64 option" where
  "agg_mean xs =
     (case present xs of [] \<Rightarrow> None
      | y # ys \<Rightarrow>
          fdiv_count (fst (fold kahan_step (y # ys) (Some (Fin 0), Some (Fin 0))))
            (length (y # ys)))"

section \<open>The report generator: \<^verbatim>\<open>load_scan\<close> and \<^verbatim>\<open>summarize\<close>\<close>

definition expected :: "string list" where
  "expected = [''timestamp'', ''ssid'', ''bssid'', ''channel'', ''rssi'']"

definition missing_columns :: "dataframe \<Rightarrow> string list" where
  "missing_columns df = filter (\<lambda>c. c \<notin> set (columns df)) expected"

text \<open>
  \<open>to_datetime\<close> is \<^verbatim>\<open>pd.to_datetime(errors="coerce")\<close>, a parameter: given the whole
  column (the library may infer a format from it) and a cell, the timestamp or
  \<open>None\<close> (NaT).
\<close>

definition normalize_row ::
  "(cell list \<Rightarrow> cell \<Rightarrow> ts option) \<Rightarrow> (string \<Rightarrow> f64 option) \<Rightarrow> (f64 \<Rightarrow> string)
     \<Rightarrow> cell list \<Rightarrow> (string \<Rightarrow> cell) \<Rightarrow> scan_row" where
  "normalize_row to_datetime parse_number float_repr tcol r =
     \<lparr> timestamp = to_datetime tcol (r ''timestamp''),
       ssid = astype_str float_repr (fillna (r ''ssid'')),
       bssid = astype_str float_repr (fillna (r ''bssid'')),
       channel = astype_str float_repr (r ''channel''),
       rssi = to_numeric parse_number (r ''rssi'') \<rparr>"

definition load_scan ::
  "(cell list \<Rightarrow> cell \<Rightarrow> ts option) \<Rightarrow> (string \<Rightarrow> f64 option) \<Rightarrow> (f64 \<Rightarrow> string)
     \<Rightarrow> dataframe \<Rightarrow> error + scan_row list" where
  "load_scan to_datetime parse_number float_repr df =
     (let missing = missing_columns df in
      if missing \<noteq> [] then Inl (SystemExit (''CSV is missing columns: '' @ repr_list missing))
      else Inr (map (normalize_row to_datetime parse_number float_repr
                       (map (\<lambda>r. r ''timestamp'') (rows df)))
                    (rows df)))"

text \<open>\<^verbatim>\<open>df.groupby("bssid", dropna=False)\<close>: the keys in ascending order, and a key's rows.\<close>

definition group_keys :: "scan_row list \<Rightarrow> string list" where
  "group_keys df = sort (remdups (map bssid df))"

definition group_rows :: "scan_row list \<Rightarrow> string \<Rightarrow> scan_row list" where
  "group_rows df k = filter (\<lambda>r. bssid r = k) df"

text \<open>\<^verbatim>\<open>sorted({x for x in s if x})\<close> and \<^verbatim>\<open>", ".join\<close> of it.\<close>

definition sorted_set :: "string list \<Rightarrow> string list" where
  "sorted_set s = sort (remdups (filter (\<lambda>x. x \<noteq> []) s))"

definition joined_set :: "string list \<Rightarrow> string" where
  "joined_set s = join '', '' (sorted_set s)"

definition agg_group :: "scan_row list \<Rightarrow> string \<Rightarrow> device_summary" where
  "agg_group df k =
     (let g = group_rows df k in
      \<lparr> s_bssid = k,
        frames = length g,
        first_seen = agg_min (map timestamp g),
        last_seen = agg_max (map timestamp g),
        min_rssi = agg_min (map rssi g),
        avg_rssi = agg_mean (map rssi g),
        max_rssi = agg_max (map rssi g),
        ssids = joined_set (map ssid g),
        channels = joined_set (map channel g) \<rparr>)"

text \<open>
  \<^verbatim>\<open>out.sort_values(["frames", "bssid"], ascending=[False, True])\<close>: a stable sort on
  the pair of keys, the first one descending.
\<close>

definition summarize :: "scan_row list \<Rightarrow> device_summary list" where
  "summarize df =
     sort_key (\<lambda>s. (- int (frames s), s_bssid s)) (map (agg_group df) (group_keys df))"

section \<open>The report generator: the table of \<^verbatim>\<open>build_pdf\<close>\<close>








section \<open>The CSV reader on a column of digit strings\<close>




section \<open>The web viewer\<close>

definition load_df :: "dataframe \<Rightarrow> dataframe" where
  "load_df df = df"

text \<open>
  \<^verbatim>\<open>sort_values(ascending=False)\<close> on one key with the default \<^verbatim>\<open>kind="quicksort"\<close>,
  which is not stable: \<open>ys\<close> is a rearrangement of \<open>xs\<close> in descending order of the
  key, and the order among equal keys is the library's.
\<close>

definition sort_values_desc :: "('a \<Rightarrow> nat) \<Rightarrow> 'a list \<Rightarrow> 'a list \<Rightarrow> bool" where
  "sort_values_desc key xs ys \<longleftrightarrow> mset ys = mset xs \<and> sorted_wrt (\<lambda>a b. key b \<le> key a) ys"

text \<open>
  The order pandas sorts group keys in: texts by character code, numbers by value
  (the cells of one column have one dtype).
\<close>

definition cell_key :: "cell \<Rightarrow> f64 \<times> string" where
  "cell_key c =
     (case c of NA \<Rightarrow> (Fin 0, []) | Text s \<Rightarrow> (Fin 0, s) | IntV i \<Rightarrow> (Fin (of_int i), [])
      | FloatV q \<Rightarrow> (q, []))"

text \<open>\<^verbatim>\<open>df.groupby(col)\<close> with the default \<^verbatim>\<open>dropna=True\<close>: rows without a key are left out.\<close>

definition groupby_keys :: "string \<Rightarrow> (string \<Rightarrow> cell) list \<Rightarrow> cell list" where
  "groupby_keys col rs = sort_key cell_key (remdups (filter (\<lambda>c. c \<noteq> NA) (map (\<lambda>r. r col) rs)))"

definition groupby_rows :: "string \<Rightarrow> (string \<Rightarrow> cell) list \<Rightarrow> cell \<Rightarrow> (string \<Rightarrow> cell) list" where
  "groupby_rows col rs k = filter (\<lambda>r. r col = k) rs"

text \<open>\<^verbatim>\<open>df.groupby("ssid").size()\<close>.\<close>

definition ssid_counts :: "(string \<Rightarrow> cell) list \<Rightarrow> (cell \<times> nat) list" where
  "ssid_counts rs = map (\<lambda>k. (k, length (groupby_rows ''ssid'' rs k))) (groupby_keys ''ssid'' rs)"

subsection \<open>\<^verbatim>\<open>index\<close>: the search box\<close>

















subsection \<open>\<^verbatim>\<open>ssid_view\<close>: the devices of one SSID\<close>

record web_agg =
  a_bssid :: cell
  a_frames :: nat
  a_first_seen :: cell
  a_last_seen :: cell
  a_min_rssi :: cell
  a_avg_rssi :: "f64 option"
  a_max_rssi :: cell
  a_channels :: string


text \<open>\<^verbatim>\<open>min\<close> and \<^verbatim>\<open>max\<close> of a group's cells, missing ones skipped; NaN when none is left.\<close>

definition cell_min :: "cell list \<Rightarrow> cell" where
  "cell_min cs =
     (case filter (\<lambda>c. c \<noteq> NA) cs of [] \<Rightarrow> NA
      | y # ys \<Rightarrow> fold (\<lambda>c m. if cell_key c < cell_key m then c else m) ys y)"

definition cell_max :: "cell list \<Rightarrow> cell" where
  "cell_max cs =
     (case filter (\<lambda>c. c \<noteq> NA) cs of [] \<Rightarrow> NA
      | y # ys \<Rightarrow> fold (\<lambda>c m. if cell_key m < cell_key c then c else m) ys y)"

definition cell_number :: "cell \<Rightarrow> f64 option" where
  "cell_number c = (case c of IntV i \<Rightarrow> Some (Fin (of_int i)) | FloatV q \<Rightarrow> Some q | _ \<Rightarrow> None)"

definition is_text :: "cell \<Rightarrow> bool" where
  "is_text c = (case c of Text s \<Rightarrow> True | _ \<Rightarrow> False)"

text \<open>\<^verbatim>\<open>", ".join(sorted(set(s.astype(str))))\<close>.\<close>

definition web_channel_set :: "(f64 \<Rightarrow> string) \<Rightarrow> cell list \<Rightarrow> string list" where
  "web_channel_set float_repr cs = sort (remdups (map (astype_str float_repr) cs))"

definition web_agg_group :: "(f64 \<Rightarrow> string) \<Rightarrow> (string \<Rightarrow> cell) list \<Rightarrow> cell \<Rightarrow> web_agg" where
  "web_agg_group float_repr rs k =
     (let g = groupby_rows ''bssid'' rs k in
      \<lparr> a_bssid = k,
        a_frames = length g,
        a_first_seen = cell_min (map (\<lambda>r. r ''timestamp'') g),
        a_last_seen = cell_max (map (\<lambda>r. r ''timestamp'') g),
        a_min_rssi = cell_min (map (\<lambda>r. r ''rssi'') g),
        a_avg_rssi = agg_mean (map (\<lambda>r. cell_number (r ''rssi'')) g),
        a_max_rssi = cell_max (map (\<lambda>r. r ''rssi'') g),
        a_channels = join '', '' (web_channel_set float_repr (map (\<lambda>r. r ''channel'') g)) \<rparr>)"

text \<open>The rows of the request: \<^verbatim>\<open>df[df["ssid"].fillna("") == ssid]\<close>.\<close>

definition ssid_rows :: "string \<Rightarrow> dataframe \<Rightarrow> (string \<Rightarrow> cell) list" where
  "ssid_rows sid df = filter (\<lambda>r. fillna (r ''ssid'') = Text sid) (rows df)"

text \<open>
  \<^verbatim>\<open>ssid_view\<close> up to its \<^verbatim>\<open>sort_values\<close>: the frame \<^verbatim>\<open>agg\<close>, one row per BSSID in
  ascending order of the key. The mean of a column of dtype object (one with a
  field that is no number, every field then being a text) raises TypeError as soon
  as a group holds a text (pandas 2.1 and later).
\<close>

definition ssid_view_agg :: "(f64 \<Rightarrow> string) \<Rightarrow> string \<Rightarrow> dataframe \<Rightarrow> error + web_agg list" where
  "ssid_view_agg float_repr sid df0 =
     (let df = load_df df0 in
      if ''ssid'' \<notin> set (columns df) then Inl (KeyError [''ssid''])
      else let rs = ssid_rows sid df in
      if ''bssid'' \<notin> set (columns df) then Inl (KeyError [''bssid''])
      else let absent = filter (\<lambda>c. c \<notin> set (columns df)) [''channel'', ''rssi'', ''timestamp''] in
      if absent \<noteq> [] then Inl (KeyError absent)
      else let ks = groupby_keys ''bssid'' rs in
      if list_ex (\<lambda>k. list_ex (\<lambda>r. is_text (r ''rssi'')) (groupby_rows ''bssid'' rs k)) ks
      then Inl TypeError
      else Inr (map (web_agg_group float_repr rs) ks))"





section \<open>Example inputs\<close>

text \<open>
  A scan after \<^verbatim>\<open>load_scan\<close>: four frames of the access point \<^verbatim>\<open>AA:BB\<close>, one of them
  with a hidden SSID and one without RSSI, and one frame without BSSID, timestamp,
  channel or RSSI.
\<close>

definition cafe_rows :: "scan_row list" where
  "cafe_rows =
     [\<lparr> timestamp = Some (2024, 1, 5, 9, 0, 0, 0), ssid = ''Cafe'', bssid = ''AA:BB'',
        channel = ''6'', rssi = Some (Fin (- 40)) \<rparr>,
      \<lparr> timestamp = Some (2024, 1, 5, 9, 0, 5, 0), ssid = ''Cafe'', bssid = ''AA:BB'',
        channel = ''6'', rssi = Some (Fin (- 60)) \<rparr>,
      \<lparr> timestamp = None, ssid = ''Cafe'', bssid = ''AA:BB'', channel = ''6'', rssi = None \<rparr>,
      \<lparr> timestamp = None, ssid = [], bssid = ''AA:BB'', channel = ''11'', rssi = Some (Fin (- 50)) \<rparr>,
      \<lparr> timestamp = None, ssid = ''Lab'', bssid = [], channel = ''nan'', rssi = None \<rparr>]"

definition cafe_device :: device_summary where
  "cafe_device =
     \<lparr> s_bssid = ''AA:BB'', frames = 4, first_seen = Some (2024, 1, 5, 9, 0, 0, 0),
       last_seen = Some (2024, 1, 5, 9, 0, 5, 0), min_rssi = Some (Fin (- 60)), avg_rssi = Some (Fin (- 50)),
       max_rssi = Some (Fin (- 40)), ssids = ''Cafe'', channels = ''11, 6'' \<rparr>"

definition unknown_device :: device_summary where
  "unknown_device =
     \<lparr> s_bssid = [], frames = 1, first_seen = None, last_seen = None, min_rssi = None,
       avg_rssi = None, max_rssi = None, ssids = ''Lab'', channels = ''nan'' \<rparr>"

text \<open>
  Three frames of one access point with the signal strength the text \<^verbatim>\<open>-60.2\<close>
  denotes as a float64.
\<close>

definition steady_rows :: "scan_row list" where
  "steady_rows =
     replicate 3 \<lparr> timestamp = None, ssid = ''Cafe'', bssid = ''AA:BB'', channel = ''6'',
                   rssi = Some (Fin (- 4236198399495373 / 70368744177664)) \<rparr>"




text \<open>
  A row of a frame as the CSV reader returns it, from its cells under \<^verbatim>\<open>timestamp\<close>,
  \<^verbatim>\<open>ssid\<close>, \<^verbatim>\<open>bssid\<close>, \<^verbatim>\<open>channel\<close> and \<^verbatim>\<open>rssi\<close>.
\<close>

definition raw_row :: "cell \<Rightarrow> cell \<Rightarrow> cell \<Rightarrow> cell \<Rightarrow> cell \<Rightarrow> string \<Rightarrow> cell" where
  "raw_row t s b c r =
     (\<lambda>col. if col = ''timestamp'' then t else if col = ''ssid'' then s
            else if col = ''bssid'' then b else if col = ''channel'' then c
            else if col = ''rssi'' then r else NA)"






text \<open>A scan with two access points, the second one without any signal strength.\<close>

definition quiet_frame :: dataframe where
  "quiet_frame =
     \<lparr> columns = [''timestamp'', ''ssid'', ''bssid'', ''channel'', ''rssi''],
       rows = [raw_row (Text ''2024-01-05 09:00:00'') (Text ''Cafe'') (Text ''AA:BB'') (IntV 6)
                 (FloatV (Fin (- 40))),
               raw_row (Text ''2024-01-05 09:00:05'') (Text ''Cafe'') (Text ''CC:DD'') (IntV 6)
                 NA] \<rparr>"


section \<open>Rounding to float64\<close>

lemma pow2_powi: "pow2 k = 2 powi k"
  by (simp add: pow2_def power_int_def field_simps)

lemma pow2_pos: "0 < pow2 k"
  by (simp add: pow2_powi)

lemma pow2_add: "pow2 (a + b) = pow2 a * pow2 b"
  by (simp add: pow2_powi power_int_add)

lemma pow2_diff: "pow2 (a - b) = pow2 a / pow2 b"
  by (simp add: pow2_powi power_int_diff)

lemma pow2_mono: "a \<le> b \<Longrightarrow> pow2 a \<le> pow2 b"
  by (simp add: pow2_powi power_int_increasing)

lemma pow2_strict_mono: "a < b \<Longrightarrow> pow2 a < pow2 b"
  by (simp add: pow2_powi power_int_strict_increasing)

lemma pow2_less_imp: "pow2 a < pow2 b \<Longrightarrow> a < b"
  using pow2_mono [of b a] by (cases "a < b") auto

lemma pow2_nat: "pow2 (int n) = 2 ^ n"
  by (simp add: pow2_def)

lemma bitlen_int_bounds:
  assumes "0 < a"
  shows "pow2 (bitlen a - 1) \<le> of_int a" and "of_int a < pow2 (bitlen a)"
proof -
  have l: "1 \<le> bitlen a"
    using assms bitlen_eq_zero_iff [of a] bitlen_nonneg [of a] by linarith
  have "(of_int (2 ^ nat (bitlen a - 1)) :: rat) \<le> of_int a"
    using bitlen_bounds [OF assms] by (simp only: of_int_le_iff)
  then show "pow2 (bitlen a - 1) \<le> of_int a"
    using l by (simp add: pow2_def)
  have "(of_int a :: rat) < of_int (2 ^ nat (bitlen a))"
    using bitlen_bounds [OF assms] by (simp only: of_int_less_iff)
  then show "of_int a < pow2 (bitlen a)"
    using l by (simp add: pow2_def)
qed

lemma floor_log2_bounds:
  assumes "0 < q"
  shows "pow2 (floor_log2 q) \<le> q \<and> q < pow2 (floor_log2 q + 1)"
proof -
  obtain a b where ab: "quotient_of q = (a, b)" by (cases "quotient_of q")
  have b: "0 < b" using ab by (rule quotient_of_denom_pos)
  have q: "q = of_int a / of_int b" using ab by (rule quotient_of_div)
  have a: "0 < a" using assms b unfolding q by (simp add: zero_less_divide_iff)
  let ?k = "bitlen a - bitlen b"
  have la: "bitlen a \<ge> 1" and lb: "bitlen b \<ge> 1"
    using a b bitlen_eq_zero_iff [of a] bitlen_eq_zero_iff [of b] bitlen_nonneg [of a] bitlen_nonneg [of b]
    by linarith+
  have a1: "pow2 (bitlen a - 1) \<le> of_int a" and a2: "of_int a < pow2 (bitlen a)"
    using bitlen_int_bounds [OF a] by simp_all
  have b1: "pow2 (bitlen b - 1) \<le> of_int b" and b2: "of_int b < pow2 (bitlen b)"
    using bitlen_int_bounds [OF b] by simp_all
  have bq: "(0::rat) < of_int b" using b by simp
  have up: "q < pow2 (?k + 1)"
  proof -
    have "of_int a < pow2 (bitlen a - (bitlen b - 1)) * pow2 (bitlen b - 1)"
      using a2 by (simp flip: pow2_add)
    also have "\<dots> \<le> pow2 (bitlen a - (bitlen b - 1)) * of_int b"
      using b1 pow2_pos by (simp add: mult_left_mono less_imp_le)
    finally have "of_int a / of_int b < pow2 (bitlen a - (bitlen b - 1))"
      using bq by (simp add: pos_divide_less_eq)
    then show ?thesis unfolding q by (simp add: algebra_simps)
  qed
  have lo: "pow2 (?k - 1) < q"
  proof -
    have "pow2 (?k - 1) * of_int b < pow2 (?k - 1) * pow2 (bitlen b)"
      using b2 pow2_pos by (simp add: mult_strict_left_mono)
    also have "\<dots> = pow2 (bitlen a - 1)"
      by (simp flip: pow2_add)
    also have "\<dots> \<le> of_int a" by (rule a1)
    finally show ?thesis unfolding q using bq by (simp add: pos_less_divide_eq)
  qed
  show ?thesis
    using up lo by (simp add: floor_log2_def ab Let_def less_imp_le)
qed

lemma round_half_even_ge: "of_int j \<le> x \<Longrightarrow> j \<le> round_half_even x"
  unfolding round_half_even_def Let_def
  by (auto simp: le_floor_iff intro: order_trans [of j "\<lfloor>x\<rfloor>"])

lemma round_half_even_le: "x \<le> of_int j \<Longrightarrow> round_half_even x \<le> j"
proof -
  assume x: "x \<le> of_int j"
  show ?thesis
  proof (cases "x = of_int j")
    case True
    then show ?thesis by (simp add: round_half_even_def)
  next
    case False
    then have "x < of_int j" using x by simp
    then have "\<lfloor>x\<rfloor> < j" by (simp add: floor_less_iff)
    then show ?thesis unfolding round_half_even_def Let_def by auto
  qed
qed

lemma round_half_even_int [simp]: "round_half_even (of_int j) = j"
  by (simp add: round_half_even_def)


lemma Fin_le_iff [simp]: "Fin a \<le> Fin b \<longleftrightarrow> a \<le> b"
  by (simp add: less_eq_f64_def)

lemma Fin_less_iff [simp]: "Fin a < Fin b \<longleftrightarrow> a < b"
  by (auto simp: less_f64_def)

lemma pow2_53: "pow2 53 = 2 ^ 53"
  by (simp add: pow2_def)

lemma rnd_grid:
  assumes "q \<noteq> 0" and "\<bar>q\<bar> < 2 ^ 53"
  obtains n where
    "rnd q = Fin ((if 0 < q then 1 else - 1) * (of_int (round_half_even (\<bar>q\<bar> * 2 ^ n)) / 2 ^ n))"
proof -
  let ?e = "floor_log2 \<bar>q\<bar>"
  let ?p = "max (?e - 52) (- 1074)"
  let ?n = "nat (- ?p)"
  have pos: "0 < \<bar>q\<bar>" using assms(1) by simp
  have "pow2 ?e \<le> \<bar>q\<bar>" using floor_log2_bounds [OF pos] by simp
  then have "pow2 ?e < pow2 53" using assms(2) by (simp add: pow2_53)
  then have e: "?e < 53" by (rule pow2_less_imp)
  then have p: "?p \<le> 0" by simp
  have pp: "pow2 ?p = 1 / 2 ^ ?n"
    using p by (cases "?p = 0") (simp_all add: pow2_def)
  have "rnd q = Fin ((if 0 < q then 1 else - 1)
                  * (of_int (round_half_even (\<bar>q\<bar> / pow2 ?p)) * pow2 ?p))"
    using assms(1) e unfolding rnd_def Let_def by simp
  then have "rnd q = Fin ((if 0 < q then 1 else - 1)
                  * (of_int (round_half_even (\<bar>q\<bar> * 2 ^ ?n)) / 2 ^ ?n))"
    unfolding pp by simp
  then show ?thesis by (rule that)
qed

lemma rnd_ge_int:
  assumes "of_int m \<le> q" and "\<bar>q\<bar> < 2 ^ 53"
  shows "Fin (of_int m) \<le> rnd q"
proof (cases "q = 0")
  case True
  then show ?thesis using assms(1) by (simp add: rnd_def)
next
  case False
  then obtain n where
    n: "rnd q = Fin ((if 0 < q then 1 else - 1) * (of_int (round_half_even (\<bar>q\<bar> * 2 ^ n)) / 2 ^ n))"
    using assms(2) by (rule rnd_grid)
  show ?thesis
  proof (cases "0 < q")
    case True
    have "of_int (m * 2 ^ n) \<le> \<bar>q\<bar> * 2 ^ n" using assms(1) True by simp
    then have "m * 2 ^ n \<le> round_half_even (\<bar>q\<bar> * 2 ^ n)" by (rule round_half_even_ge)
    then have "(of_int (m * 2 ^ n) :: rat) \<le> of_int (round_half_even (\<bar>q\<bar> * 2 ^ n))"
      by (simp only: of_int_le_iff)
    then show ?thesis using True by (simp add: n pos_le_divide_eq)
  next
    case neg: False
    have "\<bar>q\<bar> * 2 ^ n \<le> of_int (- m * 2 ^ n)" using assms(1) neg by simp
    then have "round_half_even (\<bar>q\<bar> * 2 ^ n) \<le> - m * 2 ^ n" by (rule round_half_even_le)
    then have "(of_int (round_half_even (\<bar>q\<bar> * 2 ^ n)) :: rat) \<le> of_int (- m * 2 ^ n)"
      by (simp only: of_int_le_iff)
    then have "(of_int (round_half_even (\<bar>q\<bar> * 2 ^ n)) :: rat) / 2 ^ n \<le> - of_int m"
      by (simp add: pos_divide_le_eq)
    then show ?thesis using neg by (simp add: n le_minus_iff)
  qed
qed

lemma rnd_le_int:
  assumes "q \<le> of_int m" and "\<bar>q\<bar> < 2 ^ 53"
  shows "rnd q \<le> Fin (of_int m)"
proof (cases "q = 0")
  case True
  then show ?thesis using assms(1) by (simp add: rnd_def)
next
  case False
  then obtain n where
    n: "rnd q = Fin ((if 0 < q then 1 else - 1) * (of_int (round_half_even (\<bar>q\<bar> * 2 ^ n)) / 2 ^ n))"
    using assms(2) by (rule rnd_grid)
  show ?thesis
  proof (cases "0 < q")
    case True
    have "\<bar>q\<bar> * 2 ^ n \<le> of_int (m * 2 ^ n)" using assms(1) True by simp
    then have "round_half_even (\<bar>q\<bar> * 2 ^ n) \<le> m * 2 ^ n" by (rule round_half_even_le)
    then have "(of_int (round_half_even (\<bar>q\<bar> * 2 ^ n)) :: rat) \<le> of_int (m * 2 ^ n)"
      by (simp only: of_int_le_iff)
    then show ?thesis using True by (simp add: n pos_divide_le_eq)
  next
    case neg: False
    have "of_int (- m * 2 ^ n) \<le> \<bar>q\<bar> * 2 ^ n" using assms(1) neg by simp
    then have "- m * 2 ^ n \<le> round_half_even (\<bar>q\<bar> * 2 ^ n)" by (rule round_half_even_ge)
    then have "(of_int (- m * 2 ^ n) :: rat) \<le> of_int (round_half_even (\<bar>q\<bar> * 2 ^ n))"
      by (simp only: of_int_le_iff)
    then have "- of_int m \<le> (of_int (round_half_even (\<bar>q\<bar> * 2 ^ n)) :: rat) / 2 ^ n"
      by (simp add: pos_le_divide_eq)
    then show ?thesis using neg by (simp add: n minus_le_iff)
  qed
qed

lemma rnd_int:
  assumes "\<bar>i\<bar> < 2 ^ 53"
  shows "rnd (of_int i) = Fin (of_int i)"
proof -
  have b: "\<bar>of_int i :: rat\<bar> < 2 ^ 53"
    using assms by (metis of_int_abs of_int_less_iff of_int_numeral of_int_power)
  have "Fin (of_int i) \<le> rnd (of_int i)" by (rule rnd_ge_int) (simp, rule b)
  moreover have "rnd (of_int i) \<le> Fin (of_int i)" by (rule rnd_le_int) (simp, rule b)
  ultimately show ?thesis by simp
qed

section \<open>The mean of a group\<close>

lemma fold_min_Min: "fold min ys (y::'a::linorder) = Min (set (y # ys))"
  by (rule Min.set_eq_fold [symmetric])

lemma fold_max_Max: "fold max ys (y::'a::linorder) = Max (set (y # ys))"
  by (rule Max.set_eq_fold [symmetric])

lemma agg_min_Min: "agg_min xs = (if present xs = [] then None else Some (Min (set (present xs))))"
  by (auto simp: agg_min_def fold_min_Min split: list.splits)

lemma agg_max_Max: "agg_max xs = (if present xs = [] then None else Some (Max (set (present xs))))"
  by (auto simp: agg_max_def fold_max_Max split: list.splits)

lemma agg_mean_fold:
  "agg_mean xs =
     (if present xs = [] then None
      else fdiv_count (fst (fold kahan_step (present xs) (Some (Fin 0), Some (Fin 0))))
             (length (present xs)))"
  by (auto simp: agg_mean_def split: list.splits)

lemma rnd_0 [simp]: "rnd 0 = Fin 0"
  by (simp add: rnd_def)

lemma kahan_step_int:
  assumes "\<bar>a\<bar> + \<bar>i\<bar> < 2 ^ 53"
  shows "kahan_step (Fin (of_int i)) (Some (Fin (of_int a)), Some (Fin 0))
         = (Some (Fin (of_int (a + i))), Some (Fin 0))"
proof -
  have i: "rnd (of_int i) = Fin (of_int i)"
    by (rule rnd_int) (use assms in linarith)
  have ai: "rnd (of_int a + of_int i) = Fin (of_int a + of_int i)"
    using rnd_int [of "a + i"] assms by simp
  show ?thesis
    by (simp add: kahan_step_def cast_def fsub_def i ai Let_def)
qed

lemma kahan_ints:
  "\<bar>a\<bar> + sum_list (map abs ns) < 2 ^ 53 \<Longrightarrow>
   fold kahan_step (map (\<lambda>i. Fin (of_int i)) ns) (Some (Fin (of_int a)), Some (Fin 0))
   = (Some (Fin (of_int (a + sum_list ns))), Some (Fin 0))"
proof (induction ns arbitrary: a)
  case Nil
  show ?case by simp
next
  case (Cons i ns)
  have nn: "0 \<le> sum_list (map abs ns)" by (induction ns) auto
  have s: "kahan_step (Fin (of_int i)) (Some (Fin (of_int a)), Some (Fin 0))
         = (Some (Fin (of_int (a + i))), Some (Fin 0))"
    by (rule kahan_step_int) (use Cons.prems nn in simp)
  have "\<bar>a + i\<bar> + sum_list (map abs ns) < 2 ^ 53" using Cons.prems by simp
  then show ?case using Cons.IH [of "a + i"] by (simp add: s add.assoc)
qed

lemma abs_sum_list_le: "\<bar>sum_list ns\<bar> \<le> sum_list (map abs (ns :: int list))"
  by (induction ns) auto

lemma agg_mean_ints:
  assumes "present xs = map (\<lambda>i. Fin (of_int i)) ns" and "ns \<noteq> []"
    and "sum_list (map abs ns) < 2 ^ 53"
  shows "agg_mean xs = Some (rnd (of_int (sum_list ns) / of_nat (length ns)))"
proof -
  have "fold kahan_step (present xs) (Some (Fin 0), Some (Fin 0))
      = (Some (Fin (of_int (0 + sum_list ns))), Some (Fin 0))"
    unfolding assms(1) using kahan_ints [of 0 ns] assms(3) by simp
  then show ?thesis
    using assms(1,2) by (simp add: agg_mean_fold fdiv_count_def)
qed

lemma int_sum_lower: "\<forall>x\<in>set ns. m \<le> x \<Longrightarrow> int (length ns) * m \<le> sum_list ns"
proof (induction ns)
  case Nil
  show ?case by simp
next
  case (Cons a ns)
  have "m \<le> a" and "int (length ns) * m \<le> sum_list ns" using Cons by simp_all
  then show ?case by (simp add: algebra_simps)
qed

lemma int_sum_upper: "\<forall>x\<in>set ns. x \<le> m \<Longrightarrow> sum_list ns \<le> int (length ns) * m"
proof (induction ns)
  case Nil
  show ?case by simp
next
  case (Cons a ns)
  have "a \<le> m" and "sum_list ns \<le> int (length ns) * m" using Cons by simp_all
  then show ?case by (simp add: algebra_simps)
qed

lemma mean_bounds_ints:
  assumes "ns \<noteq> []" and "sum_list (map abs ns) < 2 ^ 53"
  shows "Fin (of_int (Min (set ns))) \<le> rnd (of_int (sum_list ns) / of_nat (length ns))"
    and "rnd (of_int (sum_list ns) / of_nat (length ns)) \<le> Fin (of_int (Max (set ns)))"
proof -
  let ?q = "of_int (sum_list ns) / of_nat (length ns) :: rat"
  have n: "(0::rat) < of_nat (length ns)" using assms(1) by simp
  have n1: "(1::rat) \<le> of_nat (length ns)"
    using assms(1) by (cases ns) simp_all
  have "\<bar>sum_list ns\<bar> < 2 ^ 53" using abs_sum_list_le [of ns] assms(2) by linarith
  then have s: "\<bar>of_int (sum_list ns) :: rat\<bar> < 2 ^ 53"
    by (metis of_int_abs of_int_less_iff of_int_numeral of_int_power)
  have "\<bar>?q\<bar> = \<bar>of_int (sum_list ns)\<bar> / of_nat (length ns)" by simp
  also have "\<dots> \<le> \<bar>of_int (sum_list ns)\<bar>"
  proof -
    have "\<bar>of_int (sum_list ns) :: rat\<bar> * 1 \<le> \<bar>of_int (sum_list ns)\<bar> * of_nat (length ns)"
      by (rule mult_left_mono) (use n1 in simp_all)
    then show ?thesis using n by (simp add: pos_divide_le_eq)
  qed
  finally have q: "\<bar>?q\<bar> < 2 ^ 53" using s by simp
  have "int (length ns) * Min (set ns) \<le> sum_list ns"
    by (rule int_sum_lower) simp
  then have "(of_int (int (length ns) * Min (set ns)) :: rat) \<le> of_int (sum_list ns)"
    by (simp only: of_int_le_iff)
  then have "of_int (Min (set ns)) \<le> ?q"
    using n by (simp add: pos_le_divide_eq mult.commute)
  then show "Fin (of_int (Min (set ns))) \<le> rnd ?q" using q by (rule rnd_ge_int)
  have "sum_list ns \<le> int (length ns) * Max (set ns)"
    by (rule int_sum_upper) simp
  then have "(of_int (sum_list ns) :: rat) \<le> of_int (int (length ns) * Max (set ns))"
    by (simp only: of_int_le_iff)
  then have "?q \<le> of_int (Max (set ns))"
    using n by (simp add: pos_divide_le_eq mult.commute)
  then show "rnd ?q \<le> Fin (of_int (Max (set ns)))" using q by (rule rnd_le_int)
qed

lemma mono_Fin_int: "mono (\<lambda>i::int. Fin (of_int i))"
  by (rule monoI) simp

lemma Min_Fin_ints: "ns \<noteq> [] \<Longrightarrow> Min (set (map (\<lambda>i. Fin (of_int i)) ns)) = Fin (of_int (Min (set ns)))"
  using mono_Min_commute [OF mono_Fin_int, of "set ns"] by simp

lemma Max_Fin_ints: "ns \<noteq> [] \<Longrightarrow> Max (set (map (\<lambda>i. Fin (of_int i)) ns)) = Fin (of_int (Max (set ns)))"
  using mono_Max_commute [OF mono_Fin_int, of "set ns"] by simp

lemma present_filter: "present xs = map the (filter (\<lambda>x. x \<noteq> None) xs)"
  by (induction xs rule: present.induct) auto

lemma present_of_filter:
  "filter (\<lambda>x. x \<noteq> None) xs = map (\<lambda>i. Some (f i)) ns \<Longrightarrow> present xs = map f ns"
  by (simp add: present_filter comp_def)

lemma mean_cafe:
  "agg_mean [Some (Fin (- 40)), Some (Fin (- 60)), None, Some (Fin (- 50))] = Some (Fin (- 50))"
proof -
  have "agg_mean [Some (Fin (- 40)), Some (Fin (- 60)), None, Some (Fin (- 50))]
      = Some (rnd (of_int (sum_list [- 40, - 60, - 50]) / of_nat (length [- 40, - 60, - 50 :: int])))"
    by (rule agg_mean_ints) simp_all
  also have "\<dots> = Some (Fin (- 50))"
    using rnd_int [of "- 50"] by simp
  finally show ?thesis .
qed

lemma mean_steady:
  "agg_mean (replicate 3 (Some (Fin (- 4236198399495373 / 70368744177664))))
   = Some (Fin (- 8472396798990747 / 140737488355328))"
  by code_simp

section \<open>The rows of the summary\<close>

lemma summarize_set: "set (summarize df) = agg_group df ` set (map bssid df)"
  by (simp add: summarize_def group_keys_def)

lemma s_bssid_agg_group: "s_bssid (agg_group df k) = k"
  by (simp add: agg_group_def Let_def)

lemma summarize_member:
  assumes "s \<in> set (summarize df)"
  shows "s = agg_group df (s_bssid s)" and "s_bssid s \<in> set (map bssid df)"
  using assms by (auto simp: summarize_set s_bssid_agg_group)

lemma summarize_cafe_rows: "summarize cafe_rows = [cafe_device, unknown_device]"
  by (simp add: summarize_def cafe_rows_def cafe_device_def unknown_device_def group_keys_def
      agg_group_def group_rows_def agg_min_def agg_max_def mean_cafe joined_set_def
      sorted_set_def Let_def) (simp add: agg_mean_def)

lemma summarize_steady_rows:
  "summarize steady_rows =
     [\<lparr> s_bssid = ''AA:BB'', frames = 3, first_seen = None, last_seen = None,
        min_rssi = Some (Fin (- 4236198399495373 / 70368744177664)),
        avg_rssi = Some (Fin (- 8472396798990747 / 140737488355328)),
        max_rssi = Some (Fin (- 4236198399495373 / 70368744177664)),
        ssids = ''Cafe'', channels = ''6'' \<rparr>]"
  using mean_steady
  by (simp add: summarize_def steady_rows_def group_keys_def agg_group_def group_rows_def
      agg_min_def agg_max_def joined_set_def sorted_set_def Let_def numeral_3_eq_3)

section \<open>Signal strength: minimum, mean, maximum\<close>

text \<open>
  C8 as stated does not hold: the mean is a float64 sum divided by the count, and
  rounding can carry it past the minimum. Three frames of signal strength \<^verbatim>\<open>-60.2\<close> have
  the minimum and maximum \<^verbatim>\<open>-60.2\<close> and the mean \<^verbatim>\<open>-60.20000000000001\<close>.
\<close>

theorem rssi_mean_below_min:
  "map min_rssi (summarize steady_rows) = [Some (Fin (- 4236198399495373 / 70368744177664))]
   \<and> map max_rssi (summarize steady_rows) = [Some (Fin (- 4236198399495373 / 70368744177664))]
   \<and> map avg_rssi (summarize steady_rows) = [Some (Fin (- 8472396798990747 / 140737488355328))]
   \<and> Fin (- 8472396798990747 / 140737488355328) < Fin (- 4236198399495373 / 70368744177664)"
  by (simp add: summarize_steady_rows)

text \<open>
  C8, amended. In every row of the summary whose group has RSSI values that are not
  missing, all of them integers whose absolute values add up to less than \<open>2\<^sup>5\<^sup>3\<close>:
  \<open>min_rssi\<close> and \<open>max_rssi\<close> are the least and the greatest of them, \<open>avg_rssi\<close> is the
  float64 nearest to their exact arithmetic mean (no rounding to a display precision),
  and \<open>min_rssi \<le> avg_rssi \<le> max_rssi\<close>.
\<close>

theorem rssi_min_avg_max_integers:
  assumes "s \<in> set (summarize df)"
    and "filter (\<lambda>v. v \<noteq> None) (map rssi (group_rows df (s_bssid s)))
         = map (\<lambda>i. Some (Fin (of_int i))) ns"
    and "ns \<noteq> []"
    and "sum_list (map abs ns) < 2 ^ 53"
  shows "min_rssi s = Some (Fin (of_int (Min (set ns))))
       \<and> avg_rssi s = Some (rnd (of_int (sum_list ns) / of_nat (length ns)))
       \<and> max_rssi s = Some (Fin (of_int (Max (set ns))))
       \<and> Fin (of_int (Min (set ns))) \<le> rnd (of_int (sum_list ns) / of_nat (length ns))
       \<and> rnd (of_int (sum_list ns) / of_nat (length ns)) \<le> Fin (of_int (Max (set ns)))"
proof -
  let ?xs = "map rssi (group_rows df (s_bssid s))"
  have s: "s = agg_group df (s_bssid s)"
    using assms(1) by (rule summarize_member)
  have p: "present ?xs = map (\<lambda>i. Fin (of_int i)) ns"
    using assms(2) by (rule present_of_filter)
  have ne: "present ?xs \<noteq> []" using p assms(3) by simp
  have "min_rssi s = agg_min ?xs"
    by (subst s) (simp add: agg_group_def Let_def)
  then have lo: "min_rssi s = Some (Fin (of_int (Min (set ns))))"
    using ne assms(3) by (simp add: agg_min_Min p Min_Fin_ints del: set_map)
  have "max_rssi s = agg_max ?xs"
    by (subst s) (simp add: agg_group_def Let_def)
  then have hi: "max_rssi s = Some (Fin (of_int (Max (set ns))))"
    using ne assms(3) by (simp add: agg_max_Max p Max_Fin_ints del: set_map)
  have "avg_rssi s = agg_mean ?xs"
    by (subst s) (simp add: agg_group_def Let_def)
  then have av: "avg_rssi s = Some (rnd (of_int (sum_list ns) / of_nat (length ns)))"
    using agg_mean_ints [OF p assms(3,4)] by simp
  show ?thesis
    using lo av hi mean_bounds_ints [OF assms(3,4)] by simp
qed

theorem rssi_min_avg_max_integers_witness:
  "cafe_device \<in> set (summarize cafe_rows)
   \<and> filter (\<lambda>v. v \<noteq> None) (map rssi (group_rows cafe_rows (s_bssid cafe_device)))
       = map (\<lambda>i. Some (Fin (of_int i))) [- 40, - 60, - 50]
   \<and> sum_list (map abs [- 40, - 60, - 50 :: int]) < 2 ^ 53
   \<and> min_rssi cafe_device = Some (Fin (- 60)) \<and> avg_rssi cafe_device = Some (Fin (- 50))
   \<and> max_rssi cafe_device = Some (Fin (- 40))
   \<and> rnd (of_int (sum_list [- 40, - 60, - 50]) / of_nat (length [- 40, - 60, - 50 :: int]))
       = Fin (- 50)
   \<and> Fin (- 60) \<le> Fin (- 50) \<and> Fin (- 50) \<le> Fin (- 40)"
proof -
  have h1: "cafe_device \<in> set (summarize cafe_rows)" by (simp add: summarize_cafe_rows)
  have h2: "filter (\<lambda>v. v \<noteq> None) (map rssi (group_rows cafe_rows (s_bssid cafe_device)))
       = map (\<lambda>i. Some (Fin (of_int i))) [- 40, - 60, - 50]"
    by (simp add: cafe_rows_def cafe_device_def group_rows_def)
  have h3: "[- 40, - 60, - 50 :: int] \<noteq> []" by simp
  have h4: "sum_list (map abs [- 40, - 60, - 50 :: int]) < 2 ^ 53" by simp
  have v: "avg_rssi cafe_device = Some (Fin (- 50))" by (simp add: cafe_device_def)
  show ?thesis
    using rssi_min_avg_max_integers [OF h1 h2 h3 h4] h1 h2 h4 v by simp
qed

section \<open>Every row is counted once\<close>

lemma sum_list_indicator:
  "distinct ks \<Longrightarrow> sum_list (map (\<lambda>k. if a = k then 1 else 0) ks) = (if a \<in> set ks then 1 else (0::nat))"
  by (induction ks) auto

lemma group_sizes_total:
  assumes "distinct ks" and "f ` set rs \<subseteq> set ks"
  shows "sum_list (map (\<lambda>k. length (filter (\<lambda>r. f r = k) rs)) ks) = length rs"
  using assms(2)
proof (induction rs)
  case Nil
  show ?case by simp
next
  case (Cons r rs)
  have mem: "f r \<in> set ks" using Cons.prems by simp
  have "sum_list (map (\<lambda>k. length (filter (\<lambda>r. f r = k) (r # rs))) ks)
      = sum_list (map (\<lambda>k. (if f r = k then 1 else 0) + length (filter (\<lambda>r. f r = k) rs)) ks)"
    by (rule arg_cong [where f = sum_list], rule map_cong) auto
  also have "\<dots> = sum_list (map (\<lambda>k. if f r = k then 1 else 0) ks)
                 + sum_list (map (\<lambda>k. length (filter (\<lambda>r. f r = k) rs)) ks)"
    by (simp add: sum_list_addf)
  also have "\<dots> = 1 + length rs"
    using Cons mem assms(1) by (simp add: sum_list_indicator)
  finally show ?case by simp
qed

lemma sum_list_sort_key: "sum_list (map f (sort_key k xs)) = sum_list (map (f :: 'a \<Rightarrow> nat) xs)"
proof -
  have "mset (map f (sort_key k xs)) = mset (map f xs)" by simp
  then show ?thesis by (metis sum_mset_sum_list)
qed

lemma frames_agg_group: "frames (agg_group df k) = length (group_rows df k)"
  by (simp add: agg_group_def Let_def)

lemma summarize_frames_total: "sum_list (map frames (summarize df)) = length df"
proof -
  have "sum_list (map frames (summarize df))
      = sum_list (map (\<lambda>k. length (filter (\<lambda>r. bssid r = k) df)) (group_keys df))"
    by (simp add: summarize_def sum_list_sort_key comp_def frames_agg_group group_rows_def)
  also have "\<dots> = length df"
    by (rule group_sizes_total) (auto simp: group_keys_def)
  finally show ?thesis .
qed

lemma load_scan_length:
  "load_scan td pn fr df = Inr rs \<Longrightarrow> length rs = length (rows df)"
  by (auto simp: load_scan_def Let_def split: if_splits)

section \<open>The order of the summary\<close>







section \<open>Shuffled rows\<close>





















section \<open>Normalisation of a row\<close>












section \<open>The web viewer against the report generator\<close>








section \<open>The unstable sort of the web viewer\<close>

lemma sort_values_desc_Nil: "sort_values_desc key [] ys \<longleftrightarrow> ys = []"
  by (auto simp: sort_values_desc_def)

lemma sort_values_desc_sum:
  assumes "sort_values_desc key xs ys"
  shows "sum_list (map f ys) = sum_list (map (f :: 'a \<Rightarrow> nat) xs)"
proof -
  have "mset (map f ys) = mset (map f xs)"
    using assms by (simp add: sort_values_desc_def)
  then show ?thesis by (metis sum_mset_sum_list)
qed

text \<open>
  \<^verbatim>\<open>ssid_view\<close> sorts on \<open>frames\<close> alone: for the two access points of \<open>quiet_frame\<close>,
  with one frame each, both orders are results of its \<^verbatim>\<open>sort_values\<close>.
\<close>

lemma ssid_view_tie_order:
  "ssid_view_agg fr ''Cafe'' quiet_frame
     = Inr [web_agg_group fr (rows quiet_frame) (Text ''AA:BB''),
            web_agg_group fr (rows quiet_frame) (Text ''CC:DD'')]
   \<and> sort_values_desc a_frames
        [web_agg_group fr (rows quiet_frame) (Text ''AA:BB''),
         web_agg_group fr (rows quiet_frame) (Text ''CC:DD'')]
        [web_agg_group fr (rows quiet_frame) (Text ''CC:DD''),
         web_agg_group fr (rows quiet_frame) (Text ''AA:BB'')]"
proof -
  have f: "a_frames (web_agg_group fr (rows quiet_frame) (Text ''AA:BB'')) = 1"
    "a_frames (web_agg_group fr (rows quiet_frame) (Text ''CC:DD'')) = 1"
    by (simp_all add: web_agg_group_def groupby_rows_def quiet_frame_def raw_row_def Let_def)
  have r: "ssid_rows ''Cafe'' quiet_frame = rows quiet_frame"
    by (simp add: ssid_rows_def quiet_frame_def raw_row_def fillna_def)
  have "ssid_view_agg fr ''Cafe'' quiet_frame
     = Inr [web_agg_group fr (rows quiet_frame) (Text ''AA:BB''),
            web_agg_group fr (rows quiet_frame) (Text ''CC:DD'')]"
    unfolding ssid_view_agg_def load_df_def Let_def r
    by (simp add: quiet_frame_def groupby_keys_def groupby_rows_def is_text_def cell_key_def
        raw_row_def)
  then show ?thesis by (simp add: sort_values_desc_def f)
qed

section \<open>The joined sets\<close>








section \<open>The search box\<close>




lemma ssid_counts_Nil [simp]: "ssid_counts [] = []"
  by (simp add: ssid_counts_def groupby_keys_def)









end
